theory Spec2Isabelle
  imports Main "HOL-Library.Sublist"
begin

section \<open>Python values shared by both modules\<close>

text \<open>
  Exceptions are values. Every constructor below is a subclass of Python's
  \<^verbatim>\<open>Exception\<close>, which is what the \<^verbatim>\<open>except Exception\<close> handlers of the
  source catch. \<open>LibraryError\<close> stands for whatever an external library (Pillow,
  fontTools, ddddocr) raises.
\<close>

datatype pyexc =
    FileNotFoundError
  | NotADirectoryError
  | IsADirectoryError
  | ValueError
  | TypeError
  | KeyError nat
  | LibraryError

section \<open>The crawler's decryption helpers\<close>

text \<open>
  The crawler iterates over the code points of a Python \<^verbatim>\<open>str\<close>; the obfuscated
  characters live in the private use area, so a string is a list of code points
  here. \<^verbatim>\<open>data_mapping\<close> is a \<^verbatim>\<open>dict\<close> from one-character strings to strings;
  \<^verbatim>\<open>data_mapping[c]\<close> raises \<^verbatim>\<open>KeyError\<close> on a missing key.
\<close>

type_synonym ustr = "nat list"

definition dot :: nat where "dot = 46"
definition bar :: nat where "bar = 124"
definition space :: nat where "space = 32"

fun change_price_loop :: "ustr \<Rightarrow> (nat \<rightharpoonup> ustr) \<Rightarrow> ustr \<Rightarrow> pyexc + ustr" where
  "change_price_loop [] data_mapping result = Inr result"
| "change_price_loop (item # rest) data_mapping result =
     (if item = dot then change_price_loop rest data_mapping (result @ [item])
      else (case data_mapping item of
              None \<Rightarrow> Inl (KeyError item)
            | Some v \<Rightarrow> change_price_loop rest data_mapping (result @ v)))"

definition change_price :: "ustr \<Rightarrow> (nat \<rightharpoonup> ustr) \<Rightarrow> pyexc + ustr" where
  "change_price original_price data_mapping = change_price_loop original_price data_mapping []"

fun change_sub_title_loop :: "ustr \<Rightarrow> (nat \<rightharpoonup> ustr) \<Rightarrow> ustr \<Rightarrow> pyexc + ustr" where
  "change_sub_title_loop [] data_mapping result = Inr result"
| "change_sub_title_loop (i # rest) data_mapping result =
     (if i = dot \<or> i = bar \<or> i = space
      then change_sub_title_loop rest data_mapping (result @ [i])
      else (case data_mapping i of
              None \<Rightarrow> Inl (KeyError i)
            | Some v \<Rightarrow> change_sub_title_loop rest data_mapping (result @ v)))"

definition change_sub_title :: "ustr \<Rightarrow> (nat \<rightharpoonup> ustr) \<Rightarrow> pyexc + ustr" where
  "change_sub_title original_sub_title data_mapping =
     change_sub_title_loop original_sub_title data_mapping []"

text \<open>What one character contributes when its lookup succeeds.\<close>

definition subst_char :: "nat set \<Rightarrow> (nat \<rightharpoonup> ustr) \<Rightarrow> nat \<Rightarrow> ustr" where
  "subst_char keep data_mapping c =
     (if c \<in> keep then [c] else (case data_mapping c of Some v \<Rightarrow> v | None \<Rightarrow> []))"

section \<open>The decoder of the usage example\<close>

text \<open>
  \<^verbatim>\<open>decrypt_webpage_example\<close> splits the text at \<^verbatim>\<open>;\<close>, strips \<^verbatim>\<open>&#x\<close> from each part,
  upper-cases the rest and looks \<^verbatim>\<open>uni<HEX>\<close> up. Its text is ASCII, so a string is
  a \<^typ>\<open>string\<close> here and \<^verbatim>\<open>str.upper\<close> acts on the letters a to z.
\<close>

fun split_on :: "char \<Rightarrow> string \<Rightarrow> string list" where
  "split_on sep [] = [[]]"
| "split_on sep (c # cs) =
     (if c = sep then [] # split_on sep cs
      else (case split_on sep cs of
              [] \<Rightarrow> [[c]]
            | p # ps \<Rightarrow> (c # p) # ps))"

function str_replace :: "string \<Rightarrow> string \<Rightarrow> string \<Rightarrow> string" where
  "str_replace old new s =
     (if old = [] then new @ concat (map (\<lambda>c. c # new) s)
      else if s = [] then []
      else if prefix old s then new @ str_replace old new (drop (length old) s)
      else hd s # str_replace old new (tl s))"
  by pat_completeness auto
termination
  by (relation "measure (\<lambda>(old, new, s). length s)") auto

declare str_replace.simps [simp del]

definition upper_char :: "char \<Rightarrow> char" where
  "upper_char c =
     (case map_of (zip ''abcdefghijklmnopqrstuvwxyz'' ''ABCDEFGHIJKLMNOPQRSTUVWXYZ'') c of
        Some u \<Rightarrow> u
      | None \<Rightarrow> c)"

definition str_upper :: "string \<Rightarrow> string" where
  "str_upper s = map upper_char s"

fun decrypt_loop :: "(string \<rightharpoonup> string) \<Rightarrow> string list \<Rightarrow> string \<Rightarrow> string" where
  "decrypt_loop font_map [] result = result"
| "decrypt_loop font_map (part # parts) result =
     (if part = [] then decrypt_loop font_map parts result
      else let hex_code = str_replace ''&#x'' [] part in
        if hex_code = [] then decrypt_loop font_map parts result
        else let unicode_name = ''uni'' @ str_upper hex_code in
          (case font_map unicode_name of
             Some text \<Rightarrow> decrypt_loop font_map parts (result @ text)
           | None \<Rightarrow> decrypt_loop font_map parts (result @ ''?'')))"

definition decrypt_webpage_example :: "(string \<rightharpoonup> string) \<Rightarrow> string \<Rightarrow> string" where
  "decrypt_webpage_example font_map encrypted_text =
     decrypt_loop font_map (split_on CHR '';'' encrypted_text) []"

text \<open>A placeholder token \<^verbatim>\<open>&#x<hex>;\<close> and the hexadecimal digits.\<close>

definition token :: "string \<Rightarrow> string" where
  "token hex = ''&#x'' @ hex @ '';''"

definition hex_digits :: "char set" where
  "hex_digits = set ''0123456789abcdefABCDEF''"

text \<open>What the decoder puts in place of the token of \<open>hex\<close>.\<close>

definition subst_token :: "(string \<rightharpoonup> string) \<Rightarrow> string \<Rightarrow> string" where
  "subst_token font_map hex =
     (case font_map (''uni'' @ str_upper hex) of Some text \<Rightarrow> text | None \<Rightarrow> ''?'')"

section \<open>Crop geometry of the rasterizer\<close>

type_synonym box = "int \<times> int \<times> int \<times> int"

text \<open>
  Lines 71 to 85 of \<^verbatim>\<open>convert_cmap_to_image\<close>: the crop region computed from the
  bounding box \<open>(left, top, right, bottom)\<close> on the canvas of side \<open>2 * img_size\<close>.
  Python's \<^verbatim>\<open>//\<close> is floor division, as \<open>div\<close> on \<^typ>\<open>int\<close>.
\<close>

definition crop_box :: "int \<Rightarrow> box \<Rightarrow> box" where
  "crop_box img_size bbox =
     (case bbox of (left, top', right, bottom) \<Rightarrow>
        let temp_size = img_size * 2;
            padding = img_size div 10;
            width = right - left;
            height = bottom - top';
            center_x = (left + right) div 2;
            center_y = (top' + bottom) div 2;
            half_size = max width height div 2 + padding;
            crop_left = max 0 (center_x - half_size);
            crop_top = max 0 (center_y - half_size);
            crop_right = min temp_size (center_x + half_size);
            crop_bottom = min temp_size (center_y + half_size)
        in (crop_left, crop_top, crop_right, crop_bottom))"

section \<open>Paths, files and the state of the process\<close>

text \<open>
  Paths are compared as strings, with no normalisation. The functions below follow
  \<^verbatim>\<open>posixpath\<close>: \<^verbatim>\<open>dirname\<close> cuts at the last slash and strips trailing slashes
  of the head unless the head is slashes only, \<^verbatim>\<open>join\<close> restarts at an absolute
  second component.
\<close>

type_synonym path = string

definition slash :: char where "slash = CHR ''/''"

definition dirname :: "path \<Rightarrow> path" where
  "dirname p =
     (let head = rev (dropWhile (\<lambda>c. c \<noteq> slash) (rev p))
      in if head \<noteq> [] \<and> \<not> list_all (\<lambda>c. c = slash) head
         then rev (dropWhile (\<lambda>c. c = slash) (rev head))
         else head)"

definition path_join :: "path \<Rightarrow> path \<Rightarrow> path" where
  "path_join a b =
     (if b \<noteq> [] \<and> hd b = slash then b
      else if a = [] \<or> last a = slash then a @ b
      else a @ [slash] @ b)"

text \<open>The directories \<^verbatim>\<open>os.makedirs\<close> has to find or create above its argument.\<close>

definition ancestors :: "path \<Rightarrow> path list" where
  "ancestors p =
     filter (\<lambda>d. d \<noteq> [])
       (map (\<lambda>i. take i p) (filter (\<lambda>i. p ! i = slash) [0..<length p]))"

text \<open>\<^verbatim>\<open>str\<close> of an integer, as the f-strings of the source format it: decimal digits.\<close>

fun str_of_nat :: "nat \<Rightarrow> string" where
  "str_of_nat n =
     (if n < 10 then [''0123456789'' ! n]
      else str_of_nat (n div 10) @ [''0123456789'' ! (n mod 10)])"

declare str_of_nat.simps [simp del]

definition str_of_int :: "int \<Rightarrow> string" where
  "str_of_int i = (if i < 0 then CHR ''-'' # str_of_nat (nat (- i)) else str_of_nat (nat i))"

text \<open>
  A bitmap of mode \<^verbatim>\<open>"1"\<close>: its size and its pixel data, which is either the
  uniform fill \<^verbatim>\<open>Image.new\<close> creates or the raster Pillow computed.
\<close>

datatype pixdata = Fill nat | Raster "nat list"

record image =
  width :: int
  height :: int
  pixels :: pixdata

definition Image_new :: "int \<Rightarrow> int \<Rightarrow> nat \<Rightarrow> pyexc + image" where
  "Image_new w h color =
     (if w < 0 \<or> h < 0 then Inl ValueError
      else Inr \<lparr>width = w, height = h, pixels = Fill color\<rparr>)"

datatype fdata = Opaque | PNG image

datatype logrec =
    INFO nat nat
  | WARNING int string pyexc
  | DONE nat

text \<open>
  The state a call reads and changes: the directories and files on disk, the
  memo table of \<^verbatim>\<open>lru_cache\<close> (most recently used first), the file writes
  performed so far and the log records emitted so far (both latest first).
\<close>

type_synonym key = "int \<times> path \<times> int"

record world =
  dirs :: "path set"
  files :: "path \<rightharpoonup> fdata"
  lru :: "(key \<times> image) list"
  saved :: "path list"
  log :: "logrec list"

definition path_exists :: "world \<Rightarrow> path \<Rightarrow> bool" where
  "path_exists w p = (p \<in> dom (files w) \<or> p \<in> dirs w)"

definition dir_exists :: "world \<Rightarrow> path \<Rightarrow> bool" where
  "dir_exists w d = (d = [] \<or> d \<in> dirs w)"

text \<open>\<^verbatim>\<open>Image.save(path, "PNG")\<close>: it opens the file for writing, replacing what is there.\<close>

definition save :: "image \<Rightarrow> path \<Rightarrow> world \<Rightarrow> pyexc + world" where
  "save img p w =
     (if dirname p \<in> dom (files w) then Inl NotADirectoryError
      else if \<not> dir_exists w (dirname p) then Inl FileNotFoundError
      else if p \<in> dirs w then Inl IsADirectoryError
      else Inr (w\<lparr>files := (files w)(p \<mapsto> PNG img), saved := p # saved w\<rparr>))"

definition makedirs :: "path \<Rightarrow> world \<Rightarrow> pyexc + world" where
  "makedirs name w =
     (if list_ex (\<lambda>d. d \<in> dom (files w)) (ancestors name) then Inl NotADirectoryError
      else Inr (w\<lparr>dirs := dirs w \<union> set (ancestors name) \<union> {name}\<rparr>))"

section \<open>The external libraries\<close>

text \<open>
  What Pillow, fontTools and ddddocr compute is not in the repository; the program
  is modelled over any behaviour of theirs:
  \<^item> \<open>truetype\<close>: whether \<^verbatim>\<open>ImageFont.truetype(font_path, img_size)\<close> loads;
  \<^item> \<open>text_bbox\<close>: the result of \<^verbatim>\<open>getbbox\<close> on the canvas after the character
    is drawn (\<open>None\<close> for an empty bounding box), or what drawing raised;
  \<^item> \<open>crop_resize\<close>: the raster after \<^verbatim>\<open>crop\<close> and \<^verbatim>\<open>resize\<close>, or what they raised;
  \<^item> \<open>TTFont_cmap\<close>: the items of \<^verbatim>\<open>TTFont(font_path).getBestCmap()\<close> in iteration
    order, \<open>None\<close> when the font has no Unicode character map, or what parsing raised;
  \<^item> \<open>DdddOcr\<close>: whether the OCR engine can be constructed;
  \<^item> \<open>classification\<close>: the text read from a bitmap, or what the engine raised.
\<close>

record env =
  truetype :: "path \<Rightarrow> int \<Rightarrow> bool"
  text_bbox :: "int \<Rightarrow> path \<Rightarrow> int \<Rightarrow> pyexc + box option"
  crop_resize :: "int \<Rightarrow> path \<Rightarrow> int \<Rightarrow> box \<Rightarrow> pyexc + nat list"
  TTFont_cmap :: "path \<Rightarrow> pyexc + (int \<times> string) list option"
  DdddOcr :: bool
  classification :: "image \<Rightarrow> pyexc + string"

section \<open>The rasterizer\<close>

definition imgs_path :: "int \<Rightarrow> path" where
  "imgs_path cmap_code = ''./imgs/'' @ str_of_int cmap_code @ ''.png''"

text \<open>\<^verbatim>\<open>chr\<close> raises \<^verbatim>\<open>ValueError\<close> outside \<^verbatim>\<open>range(0x110000)\<close>.\<close>

definition chr_ok :: "int \<Rightarrow> bool" where
  "chr_ok cmap_code = (0 \<le> cmap_code \<and> cmap_code < 1114112)"

text \<open>Lines 69 to 94: the final bitmap, from the bounding box of the canvas.\<close>

definition final_image :: "env \<Rightarrow> int \<Rightarrow> path \<Rightarrow> int \<Rightarrow> box option \<Rightarrow> pyexc + image" where
  "final_image e cmap_code font_path img_size bbox =
     (case bbox of
        Some b \<Rightarrow>
          (case crop_resize e cmap_code font_path img_size (crop_box img_size b) of
             Inl x \<Rightarrow> Inl x
           | Inr raster \<Rightarrow> Inr \<lparr>width = img_size, height = img_size, pixels = Raster raster\<rparr>)
      | None \<Rightarrow> Image_new img_size img_size 255)"

text \<open>The body of \<^verbatim>\<open>convert_cmap_to_image\<close>, under the \<^verbatim>\<open>lru_cache\<close> decorator.\<close>

definition convert_cmap_to_image_wrapped ::
  "env \<Rightarrow> int \<Rightarrow> path \<Rightarrow> int \<Rightarrow> world \<Rightarrow> (pyexc + image) \<times> world" where
  "convert_cmap_to_image_wrapped e cmap_code font_path img_size w =
     (if \<not> path_exists w font_path then (Inl FileNotFoundError, w)
      else if cmap_code < 0 then (Inl ValueError, w)
      else
        (case Image_new (img_size * 2) (img_size * 2) 255 of
           Inl x \<Rightarrow> (Inl x, w)
         | Inr temp_img \<Rightarrow>
             if \<not> truetype e font_path img_size then (Inl ValueError, w)
             else if \<not> chr_ok cmap_code then (Inl ValueError, w)
             else
               (case text_bbox e cmap_code font_path img_size of
                  Inl x \<Rightarrow> (Inl x, w)
                | Inr bbox \<Rightarrow>
                    (case final_image e cmap_code font_path img_size bbox of
                       Inl x \<Rightarrow> (Inl x, w)
                     | Inr final_img \<Rightarrow>
                         (case save final_img (imgs_path cmap_code) w of
                            Inl x \<Rightarrow> (Inl x, w)
                          | Inr w' \<Rightarrow> (Inr final_img, w'))))))"

text \<open>
  \<^verbatim>\<open>@lru_cache(maxsize=128)\<close>: a hit returns the stored bitmap and makes its key the
  most recent; a miss runs the body, stores a returned bitmap (an exception stores
  nothing) and drops the least recent entry beyond 128. The key is the triple of
  arguments, as every call of the source passes them positionally.
\<close>

definition maxsize :: nat where "maxsize = 128"

definition convert_cmap_to_image ::
  "env \<Rightarrow> int \<Rightarrow> path \<Rightarrow> int \<Rightarrow> world \<Rightarrow> (pyexc + image) \<times> world" where
  "convert_cmap_to_image e cmap_code font_path img_size w =
     (let k = (cmap_code, font_path, img_size) in
      case map_of (lru w) k of
        Some img \<Rightarrow> (Inr img, w\<lparr>lru := (k, img) # filter (\<lambda>kv. fst kv \<noteq> k) (lru w)\<rparr>)
      | None \<Rightarrow>
          (case convert_cmap_to_image_wrapped e cmap_code font_path img_size w of
             (Inl x, w') \<Rightarrow> (Inl x, w')
           | (Inr img, w') \<Rightarrow> (Inr img, w'\<lparr>lru := take maxsize ((k, img) # lru w')\<rparr>)))"


text \<open>The memo table holds bitmaps of the size asked for, under distinct keys.\<close>

definition lru_ok :: "world \<Rightarrow> bool" where
  "lru_ok w =
     (list_all (\<lambda>kv. width (snd kv) = snd (snd (fst kv)) \<and> height (snd kv) = snd (snd (fst kv)))
        (lru w)
      \<and> distinct (map fst (lru w)) \<and> length (lru w) \<le> maxsize)"

section \<open>The mapping assembler\<close>

definition cache_path :: "path \<Rightarrow> int \<Rightarrow> string \<Rightarrow> path" where
  "cache_path cache_dir cmap_code glyph_name =
     path_join cache_dir (str_of_int cmap_code @ ''_'' @ glyph_name @ ''.png'')"

text \<open>
  Lines 154 to 158: the optional write of the bitmap into the cache directory.
  \<^verbatim>\<open>if cache_dir:\<close> holds for a string that is neither \<^verbatim>\<open>None\<close> nor empty.
\<close>

definition cache_write ::
  "path option \<Rightarrow> int \<Rightarrow> string \<Rightarrow> image \<Rightarrow> world \<Rightarrow> pyexc + world" where
  "cache_write cache_dir cmap_code glyph_name img w =
     (case cache_dir of
        None \<Rightarrow> Inr w
      | Some d \<Rightarrow>
          if d = [] then Inr w
          else if \<not> chr_ok cmap_code then Inl ValueError
          else if \<not> path_exists w (cache_path d cmap_code glyph_name)
               then save img (cache_path d cmap_code glyph_name) w
               else Inr w)"

text \<open>Lines 150 to 163: the body of the \<^verbatim>\<open>try\<close> block for one entry.\<close>

definition process_entry ::
  "env \<Rightarrow> path \<Rightarrow> int \<Rightarrow> path option \<Rightarrow> int \<Rightarrow> string \<Rightarrow> world \<Rightarrow> (pyexc + string) \<times> world" where
  "process_entry e font_path image_size cache_dir cmap_code glyph_name w =
     (case convert_cmap_to_image e cmap_code font_path image_size w of
        (Inl x, w1) \<Rightarrow> (Inl x, w1)
      | (Inr img, w1) \<Rightarrow>
          (case cache_write cache_dir cmap_code glyph_name img w1 of
             Inl x \<Rightarrow> (Inl x, w1)
           | Inr w2 \<Rightarrow>
               (case classification e img of
                  Inl x \<Rightarrow> (Inl x, w2)
                | Inr text \<Rightarrow> (Inr text, w2))))"

text \<open>What the entry stores in \<^verbatim>\<open>font_map\<close>: the text, or the empty string on any exception.\<close>

definition entry_text :: "pyexc + string \<Rightarrow> string" where
  "entry_text r = (case r of Inl x \<Rightarrow> [] | Inr text \<Rightarrow> text)"

definition progress :: "bool \<Rightarrow> nat \<Rightarrow> nat \<Rightarrow> world \<Rightarrow> world" where
  "progress show_progress total_chars idx w =
     (if show_progress \<and> idx mod max 1 (total_chars div 10) = 0
      then w\<lparr>log := INFO idx total_chars # log w\<rparr> else w)"

text \<open>One iteration of the loop of lines 145 to 170, with its \<^verbatim>\<open>except\<close> handler.\<close>

definition entry_step ::
  "env \<Rightarrow> path \<Rightarrow> int \<Rightarrow> bool \<Rightarrow> path option \<Rightarrow> nat \<Rightarrow> nat \<Rightarrow> int \<Rightarrow> string \<Rightarrow>
   (string \<rightharpoonup> string) \<times> world \<Rightarrow> (string \<rightharpoonup> string) \<times> world" where
  "entry_step e font_path image_size show_progress cache_dir total_chars idx cmap_code glyph_name st =
     (case st of (font_map, w) \<Rightarrow>
        (case process_entry e font_path image_size cache_dir cmap_code glyph_name
                (progress show_progress total_chars idx w) of
           (Inr text, w1) \<Rightarrow> (font_map(glyph_name \<mapsto> text), w1)
         | (Inl x, w1) \<Rightarrow>
             (font_map(glyph_name \<mapsto> []), w1\<lparr>log := WARNING cmap_code glyph_name x # log w1\<rparr>)))"

fun extract_loop ::
  "env \<Rightarrow> path \<Rightarrow> int \<Rightarrow> bool \<Rightarrow> path option \<Rightarrow> nat \<Rightarrow> nat \<Rightarrow> (int \<times> string) list \<Rightarrow>
   (string \<rightharpoonup> string) \<times> world \<Rightarrow> (string \<rightharpoonup> string) \<times> world" where
  "extract_loop e font_path image_size show_progress cache_dir total_chars idx [] st = st"
| "extract_loop e font_path image_size show_progress cache_dir total_chars idx
     ((cmap_code, glyph_name) # rest) st =
     extract_loop e font_path image_size show_progress cache_dir total_chars (Suc idx) rest
       (entry_step e font_path image_size show_progress cache_dir total_chars idx
          cmap_code glyph_name st)"

text \<open>Lines 128 and 129: the cache directory is created when it is asked for and missing.\<close>

definition ensure_cache_dir :: "path option \<Rightarrow> world \<Rightarrow> pyexc + world" where
  "ensure_cache_dir cache_dir w =
     (case cache_dir of
        None \<Rightarrow> Inr w
      | Some d \<Rightarrow> if d \<noteq> [] \<and> \<not> path_exists w d then makedirs d w else Inr w)"

definition extract_text_from_font ::
  "env \<Rightarrow> path \<Rightarrow> int \<Rightarrow> bool \<Rightarrow> bool \<Rightarrow> path option \<Rightarrow> world \<Rightarrow>
   (pyexc + (string \<rightharpoonup> string)) \<times> world" where
  "extract_text_from_font e font_path image_size show_progress use_cache cache_dir w =
     (if \<not> path_exists w font_path then (Inl FileNotFoundError, w)
      else
        (case ensure_cache_dir cache_dir w of
           Inl x \<Rightarrow> (Inl x, w)
         | Inr w1 \<Rightarrow>
             (case TTFont_cmap e font_path of
                Inl x \<Rightarrow> (Inl ValueError, w1)
              | Inr cmap \<Rightarrow>
                  if \<not> DdddOcr e then (Inl LibraryError, w1)
                  else
                    (case cmap of
                       None \<Rightarrow> (Inl TypeError, w1)
                     | Some items \<Rightarrow>
                         (case extract_loop e font_path image_size show_progress cache_dir
                                 (length items) 0 items (Map.empty, w1) of
                            (font_map, w2) \<Rightarrow>
                              (Inr font_map,
                               if show_progress then w2\<lparr>log := DONE (length items) # log w2\<rparr>
                               else w2))))))"

section \<open>Stub libraries and disks for concrete runs\<close>

text \<open>
  The spec's example font \<^verbatim>\<open>digits.ttf\<close> with stub libraries: every font loads at a
  positive size, the space has an empty bounding box and every other character a box
  of 6 by 8 pixels around the centre of the canvas, the raster of a glyph is its
  code point, and the character map and the classifier are parameters.
\<close>

definition stub_env :: "(int \<times> string) list \<Rightarrow> (image \<Rightarrow> pyexc + string) \<Rightarrow> env" where
  "stub_env cmap classify =
     \<lparr>truetype = (\<lambda>p s. 0 < s),
      text_bbox = (\<lambda>c p s. Inr (if c = 32 then None else Some (s - 3, s - 4, s + 3, s + 4))),
      crop_resize = (\<lambda>c p s b. Inr [nat c]),
      TTFont_cmap = (\<lambda>p. if p = ''digits.ttf'' then Inr (Some cmap) else Inl LibraryError),
      DdddOcr = True,
      classification = classify\<rparr>"

definition reads_seven :: "image \<Rightarrow> pyexc + string" where
  "reads_seven img = Inr ''7''"

definition always_raises :: "image \<Rightarrow> pyexc + string" where
  "always_raises img = Inl LibraryError"

text \<open>A disk that holds the font file and the given directories, in a fresh process.\<close>

definition disk :: "path set \<Rightarrow> world" where
  "disk ds = \<lparr>dirs = ds, files = [''digits.ttf'' \<mapsto> Opaque], lru = [], saved = [], log = []\<rparr>"

section \<open>Properties of the crawler's helpers\<close>

lemma change_price_loop_eq:
  "change_price_loop s m acc =
     (case find (\<lambda>c. c \<noteq> dot \<and> m c = None) s of
        Some c \<Rightarrow> Inl (KeyError c)
      | None \<Rightarrow> Inr (acc @ concat (map (subst_char {dot} m) s)))"
  by (induction s arbitrary: acc) (auto simp: subst_char_def split: option.splits)

lemma change_sub_title_loop_eq:
  "change_sub_title_loop s m acc =
     (case find (\<lambda>c. c \<notin> {dot, bar, space} \<and> m c = None) s of
        Some c \<Rightarrow> Inl (KeyError c)
      | None \<Rightarrow> Inr (acc @ concat (map (subst_char {dot, bar, space} m) s)))"
  by (induction s arbitrary: acc) (auto simp: subst_char_def split: option.splits)

text \<open>
  Claim C10. \<^verbatim>\<open>change_price\<close> raises \<^verbatim>\<open>KeyError\<close> at the first character that is
  neither \<^verbatim>\<open>.\<close> nor a key of the mapping, and otherwise returns the input with \<^verbatim>\<open>.\<close>
  copied and every other character replaced by its entry; \<^verbatim>\<open>change_sub_title\<close> does
  the same with \<^verbatim>\<open>.\<close>, \<^verbatim>\<open>|\<close> and the space copied. Neither substitutes a fallback.
\<close>

theorem crawler_helpers_no_fallback:
  "change_price s m =
     (case find (\<lambda>c. c \<noteq> dot \<and> m c = None) s of
        Some c \<Rightarrow> Inl (KeyError c)
      | None \<Rightarrow> Inr (concat (map (subst_char {dot} m) s)))
   \<and> change_sub_title s m =
     (case find (\<lambda>c. c \<notin> {dot, bar, space} \<and> m c = None) s of
        Some c \<Rightarrow> Inl (KeyError c)
      | None \<Rightarrow> Inr (concat (map (subst_char {dot, bar, space} m) s)))"
  by (simp add: change_price_def change_sub_title_def change_price_loop_eq
      change_sub_title_loop_eq split: option.splits)

theorem crawler_helpers_no_fallback_witness:
  "change_price [57344, 46, 57345] [57344 \<mapsto> [55], 57345 \<mapsto> [56]] = Inr [55, 46, 56]
   \<and> change_price [57344, 63] [57344 \<mapsto> [55]] = Inl (KeyError 63)
   \<and> change_sub_title [57344, 124, 32, 46] [57344 \<mapsto> [55]] = Inr [55, 124, 32, 46]
   \<and> change_sub_title [57344, 57346] [57344 \<mapsto> [55]] = Inl (KeyError 57346)"
  using crawler_helpers_no_fallback [of "[57344, 46, 57345]" "[57344 \<mapsto> [55], 57345 \<mapsto> [56]]"]
    crawler_helpers_no_fallback [of "[57344, 63]" "[57344 \<mapsto> [55]]"]
    crawler_helpers_no_fallback [of "[57344, 124, 32, 46]" "[57344 \<mapsto> [55]]"]
    crawler_helpers_no_fallback [of "[57344, 57346]" "[57344 \<mapsto> [55]]"]
  by (simp add: subst_char_def dot_def bar_def space_def)

section \<open>Properties of the decoder\<close>

lemma split_on_append:
  "sep \<notin> set p \<Longrightarrow> split_on sep (p @ sep # rest) = p # split_on sep rest"
  by (induction p) (auto split: list.splits)

lemma str_replace_no_amp:
  "CHR ''&'' \<notin> set s \<Longrightarrow> str_replace ''&#x'' [] s = s"
proof (induction s)
  case Nil
  then show ?case by (simp add: str_replace.simps)
next
  case (Cons c cs)
  then show ?case by (subst str_replace.simps) (auto simp: prefix_def)
qed

lemma str_replace_token:
  "CHR ''&'' \<notin> set h \<Longrightarrow> str_replace ''&#x'' [] (''&#x'' @ h) = h"
  by (subst str_replace.simps) (simp add: str_replace_no_amp)

lemma hex_no_sep: "c \<in> hex_digits \<Longrightarrow> c \<noteq> CHR '';'' \<and> c \<noteq> CHR ''&''"
  by (auto simp: hex_digits_def)

lemma decrypt_tokens:
  assumes "\<forall>h \<in> set hs. h \<noteq> [] \<and> set h \<subseteq> hex_digits"
  shows "decrypt_loop fm (split_on CHR '';'' (concat (map token hs))) r
         = r @ concat (map (subst_token fm) hs)"
  using assms
proof (induction hs arbitrary: r)
  case Nil
  then show ?case by simp
next
  case (Cons h hs)
  have h: "h \<noteq> []" "CHR '';'' \<notin> set h" "CHR ''&'' \<notin> set h"
    using Cons.prems hex_no_sep by auto
  have sp: "split_on CHR '';'' (concat (map token (h # hs)))
        = (''&#x'' @ h) # split_on CHR '';'' (concat (map token hs))"
    using split_on_append[of "CHR '';''" "''&#x'' @ h" "concat (map token hs)"] h
    by (simp add: token_def)
  have ih: "\<And>r. decrypt_loop fm (split_on CHR '';'' (concat (map token hs))) r
         = r @ concat (map (subst_token fm) hs)"
    using Cons by simp
  have step: "decrypt_loop fm ((''&#x'' @ h) # ps) r = decrypt_loop fm ps (r @ subst_token fm h)"
    for ps
    using h by (simp add: str_replace_token[simplified] subst_token_def split: option.splits)
  show ?case
    unfolding sp step by (simp add: ih)
qed

text \<open>
  Claim C7. On a text made of tokens \<^verbatim>\<open>&#x<hex>;\<close>, each with at least one
  hexadecimal digit, the decoder replaces every token by the entry of
  \<^verbatim>\<open>"uni"\<close> followed by the upper-cased digits, or by \<^verbatim>\<open>"?"\<close> when the mapping has no
  such key. With the mapping of \<^verbatim>\<open>uniE78C\<close> to 3 and \<^verbatim>\<open>uniE562\<close> to 5, the text
  \<^verbatim>\<open>&#xe78c;&#xe562;\<close> decodes to 35.
\<close>

theorem decoder_contract:
  assumes "\<forall>h \<in> set hs. h \<noteq> [] \<and> set h \<subseteq> hex_digits"
  shows "decrypt_webpage_example font_map (concat (map token hs))
           = concat (map (subst_token font_map) hs)
         \<and> subst_token font_map hex
           = (case font_map (''uni'' @ str_upper hex) of Some text \<Rightarrow> text | None \<Rightarrow> ''?'')
         \<and> decrypt_webpage_example (map_of [(''uniE78C'', ''3''), (''uniE562'', ''5'')])
              ''&#xe78c;&#xe562;'' = ''35''"
proof -
  have "decrypt_webpage_example font_map (concat (map token hs))
           = concat (map (subst_token font_map) hs)"
    using decrypt_tokens [OF assms, of font_map "[]"] by (simp add: decrypt_webpage_example_def)
  moreover have "decrypt_webpage_example (map_of [(''uniE78C'', ''3''), (''uniE562'', ''5'')])
              ''&#xe78c;&#xe562;'' = ''35''"
    by (simp add: decrypt_webpage_example_def str_replace.simps str_upper_def upper_char_def)
  ultimately show ?thesis by (simp add: subst_token_def)
qed

theorem decoder_contract_witness:
  "decrypt_webpage_example (map_of [(''uniE78C'', ''3''), (''uniE562'', ''5'')])
     (concat (map token [''E78c'', ''e3d9'', ''e562''])) = ''3?5''"
proof -
  have h: "\<forall>h \<in> set [''E78c'', ''e3d9'', ''e562'']. h \<noteq> [] \<and> set h \<subseteq> hex_digits"
    by (simp add: hex_digits_def)
  show ?thesis
    using decoder_contract [OF h, of "map_of [(''uniE78C'', ''3''), (''uniE562'', ''5'')]" "[]"]
    by (simp add: subst_token_def str_upper_def upper_char_def)
qed

section \<open>Properties of the crop geometry\<close>

text \<open>
  Claim C6. For a non-empty bounding box inside the canvas and a non-negative size,
  the crop region is the square of half-extent \<open>max width height div 2 + img_size div 10\<close>
  around the rounded-down centre of the box, clamped to the canvas; it lies inside the
  canvas and the half-extent is at least \<open>max width height div 2\<close>. Along an axis on
  which the square is not clamped, the region is \<open>2 * half_size\<close> wide and its centre
  is the centre of the box rounded down, so within one pixel of it. Along a clamped
  axis the centre and the extent are not preserved.
\<close>

theorem crop_geometry:
  assumes "0 \<le> img_size"
    and "0 \<le> left" "left < right" "right \<le> 2 * img_size"
    and "0 \<le> top'" "top' < bottom" "bottom \<le> 2 * img_size"
  shows "case crop_box img_size (left, top', right, bottom) of
           (crop_left, crop_top, crop_right, crop_bottom) \<Rightarrow>
             let padding = img_size div 10;
                 half_size = max (right - left) (bottom - top') div 2 + padding;
                 center_x = (left + right) div 2;
                 center_y = (top' + bottom) div 2
             in crop_left = max 0 (center_x - half_size)
              \<and> crop_top = max 0 (center_y - half_size)
              \<and> crop_right = min (2 * img_size) (center_x + half_size)
              \<and> crop_bottom = min (2 * img_size) (center_y + half_size)
              \<and> 0 \<le> crop_left \<and> crop_left \<le> crop_right \<and> crop_right \<le> 2 * img_size
              \<and> 0 \<le> crop_top \<and> crop_top \<le> crop_bottom \<and> crop_bottom \<le> 2 * img_size
              \<and> max (right - left) (bottom - top') div 2 \<le> half_size
              \<and> (0 \<le> center_x - half_size \<and> center_x + half_size \<le> 2 * img_size \<longrightarrow>
                   crop_right - crop_left = 2 * half_size
                 \<and> crop_left + crop_right = 2 * center_x
                 \<and> 0 \<le> (left + right) - (crop_left + crop_right)
                 \<and> (left + right) - (crop_left + crop_right) \<le> 1)
              \<and> (0 \<le> center_y - half_size \<and> center_y + half_size \<le> 2 * img_size \<longrightarrow>
                   crop_bottom - crop_top = 2 * half_size
                 \<and> crop_top + crop_bottom = 2 * center_y
                 \<and> 0 \<le> (top' + bottom) - (crop_top + crop_bottom)
                 \<and> (top' + bottom) - (crop_top + crop_bottom) \<le> 1)"
proof -
  define padding where "padding = img_size div 10"
  define m where "m = max (right - left) (bottom - top') div 2"
  define cx where "cx = (left + right) div 2"
  define cy where "cy = (top' + bottom) div 2"
  have p: "0 \<le> padding" using assms(1) by (simp add: padding_def)
  have m: "0 \<le> m" using assms by (simp add: m_def)
  have cx: "0 \<le> cx" "cx \<le> 2 * img_size" "0 \<le> left + right - 2 * cx" "left + right - 2 * cx \<le> 1"
    using assms unfolding cx_def by linarith+
  have cy: "0 \<le> cy" "cy \<le> 2 * img_size" "0 \<le> top' + bottom - 2 * cy" "top' + bottom - 2 * cy \<le> 1"
    using assms unfolding cy_def by linarith+
  have cb: "crop_box img_size (left, top', right, bottom)
      = (max 0 (cx - (m + padding)), max 0 (cy - (m + padding)),
         min (2 * img_size) (cx + (m + padding)), min (2 * img_size) (cy + (m + padding)))"
    by (simp add: crop_box_def Let_def padding_def m_def cx_def cy_def mult.commute)
  show ?thesis
    unfolding cb
    using p m cx cy
    by (simp add: Let_def padding_def[symmetric] m_def[symmetric] cx_def[symmetric] cy_def[symmetric])
qed

text \<open>
  The centring fails under clamping: the box \<open>(0, 0, 10, 10)\<close> at size 1024 has its
  centre at 5 and the crop region \<open>(0, 0, 112, 112)\<close> has its centre at 56; for the
  box \<open>(0, 0, 2, 1000)\<close> the region is 603 wide, a half-extent of 301 below 500.
\<close>

theorem crop_center_counterexample:
  "crop_box 1024 (0, 0, 10, 10) = (0, 0, 112, 112)
   \<and> \<not> \<bar>(0 + 112) div 2 - (0 + 10) div 2\<bar> \<le> (1::int)
   \<and> crop_box 1024 (0, 0, 2, 1000) = (0, 0, 603, 1102)
   \<and> \<not> max (2 - 0) (1000 - 0) div 2 \<le> ((603::int) - 0) div 2"
  by (simp add: crop_box_def Let_def)

theorem crop_geometry_witness:
  "crop_box 1024 (900, 800, 1150, 1260) = (693, 698, 1357, 1362)"
  using crop_geometry [of 1024 900 1150 800 1260]
  by (simp add: Let_def split: prod.splits)

section \<open>Paths and decimal strings\<close>

lemma digit_char: "k < 10 \<Longrightarrow> ''0123456789'' ! k \<in> set ''0123456789''"
  by (rule nth_mem) simp

lemma set_str_of_nat: "set (str_of_nat n) \<subseteq> set ''0123456789''"
proof (induction n rule: str_of_nat.induct)
  case (1 n)
  show ?case
  proof (cases "n < 10")
    case True
    have "str_of_nat n = [''0123456789'' ! n]"
      using True by (subst str_of_nat.simps) simp
    then show ?thesis using digit_char[OF True] by simp
  next
    case False
    have m: "n mod 10 < 10" by simp
    have "str_of_nat n = str_of_nat (n div 10) @ [''0123456789'' ! (n mod 10)]"
      using False by (subst str_of_nat.simps) simp
    then show ?thesis using 1[OF False] digit_char[OF m] by simp
  qed
qed

lemma set_str_of_int: "set (str_of_int i) \<subseteq> set ''-0123456789''"
proof (cases "i < 0")
  case True
  have "set (str_of_int i) = insert CHR ''-'' (set (str_of_nat (nat (- i))))"
    using True by (simp add: str_of_int_def)
  also have "\<dots> \<subseteq> insert CHR ''-'' (set ''0123456789'')"
    by (rule insert_mono) (rule set_str_of_nat)
  finally show ?thesis by simp
next
  case False
  have "set (str_of_int i) = set (str_of_nat (nat i))"
    using False by (simp add: str_of_int_def)
  also have "\<dots> \<subseteq> set ''0123456789''"
    by (rule set_str_of_nat)
  also have "\<dots> \<subseteq> set ''-0123456789''"
    by (rule set_subset_Cons)
  finally show ?thesis .
qed

lemma dirname_join:
  assumes "slash \<notin> set name" "d \<noteq> []" "last d \<noteq> slash"
  shows "dirname (d @ slash # name) = d"
proof -
  have 1: "dropWhile (\<lambda>c. c \<noteq> slash) (rev name @ slash # rev d) = slash # rev d"
    using assms(1) by (auto simp: dropWhile_append3)
  have 2: "\<not> list_all (\<lambda>c. c = slash) (d @ [slash])"
    using assms(2,3) by (auto simp: list_all_iff)
  have 3: "dropWhile (\<lambda>c. c = slash) (rev d) = rev d"
    using assms(2,3) by (simp add: dropWhile_eq_self_iff hd_rev)
  show ?thesis
    using 2 by (simp add: dirname_def Let_def 1 3)
qed

lemma dirname_imgs_path: "dirname (imgs_path c) = ''./imgs''"
proof -
  have "slash \<notin> set (str_of_int c @ ''.png'')"
    using set_str_of_int[of c] by (auto simp: slash_def)
  moreover have "imgs_path c = ''./imgs'' @ slash # (str_of_int c @ ''.png'')"
    by (simp add: imgs_path_def slash_def)
  ultimately show ?thesis
    using dirname_join[of "str_of_int c @ ''.png''" "''./imgs''"] by (simp add: slash_def)
qed

lemma imgs_path_no_underscore: "CHR ''_'' \<notin> set (imgs_path c)"
  using set_str_of_int[of c] by (auto simp: imgs_path_def)

lemma cache_path_underscore: "CHR ''_'' \<in> set (cache_path d c g)"
  by (simp add: cache_path_def path_join_def slash_def)

lemma cache_path_not_imgs_path: "cache_path d c g \<noteq> imgs_path c'"
  using imgs_path_no_underscore[of c'] cache_path_underscore[of d c g] by metis

section \<open>The rasterizer: what a call of the body does\<close>

lemma save_Inr:
  "save img p w = Inr w' \<Longrightarrow>
     w' = w\<lparr>files := (files w)(p \<mapsto> PNG img), saved := p # saved w\<rparr>
     \<and> dir_exists w (dirname p) \<and> p \<notin> dirs w"
  by (simp add: save_def split: if_splits)

lemma save_no_dir:
  "\<not> dir_exists w (dirname p) \<Longrightarrow> \<exists>x. save img p w = Inl x"
  by (simp add: save_def)

lemma final_image_size:
  "final_image e c p s bbox = Inr img \<Longrightarrow> width img = s \<and> height img = s"
  by (auto simp: final_image_def Image_new_def split: option.splits sum.splits if_splits)

lemma wrapped_Inl:
  "convert_cmap_to_image_wrapped e c p s w = (Inl x, w') \<Longrightarrow> w' = w"
  by (auto simp: convert_cmap_to_image_wrapped_def split: if_splits sum.splits)

lemma wrapped_Inr:
  assumes "convert_cmap_to_image_wrapped e c p s w = (Inr img, w')"
  shows "path_exists w p \<and> chr_ok c \<and> 0 \<le> s \<and> truetype e p s
         \<and> (\<exists>bbox. text_bbox e c p s = Inr bbox \<and> final_image e c p s bbox = Inr img)
         \<and> save img (imgs_path c) w = Inr w'"
  using assms
  by (auto simp: convert_cmap_to_image_wrapped_def Image_new_def chr_ok_def
      split: if_splits sum.splits)

lemma wrapped_no_imgs_dir:
  assumes "''./imgs'' \<notin> dirs w"
  shows "\<exists>x. convert_cmap_to_image_wrapped e c p s w = (Inl x, w)"
proof (cases "convert_cmap_to_image_wrapped e c p s w")
  case (Pair r w')
  show ?thesis
  proof (cases r)
    case (Inl x)
    then show ?thesis using Pair wrapped_Inl[of e c p s w x w'] by simp
  next
    case (Inr img)
    then have "dir_exists w (dirname (imgs_path c))"
      using Pair wrapped_Inr[of e c p s w img w'] save_Inr[of img "imgs_path c" w w'] by simp
    then show ?thesis using assms by (simp add: dirname_imgs_path dir_exists_def)
  qed
qed

lemma wrapped_blank:
  assumes "path_exists w p" "chr_ok c" "0 \<le> s" "truetype e p s" "text_bbox e c p s = Inr None"
  shows "convert_cmap_to_image_wrapped e c p s w =
           (case save \<lparr>width = s, height = s, pixels = Fill 255\<rparr> (imgs_path c) w of
              Inl x \<Rightarrow> (Inl x, w)
            | Inr w' \<Rightarrow> (Inr \<lparr>width = s, height = s, pixels = Fill 255\<rparr>, w'))"
  using assms
  by (simp add: convert_cmap_to_image_wrapped_def Image_new_def chr_ok_def final_image_def)

section \<open>The memo table\<close>

lemma wrapped_lru:
  "convert_cmap_to_image_wrapped e c p s w = (r, w') \<Longrightarrow>
     lru w' = lru w \<and> dirs w' = dirs w \<and> log w' = log w"
proof (cases r)
  case (Inl x)
  assume "convert_cmap_to_image_wrapped e c p s w = (r, w')"
  then show ?thesis using Inl wrapped_Inl[of e c p s w x w'] by simp
next
  case (Inr img)
  assume "convert_cmap_to_image_wrapped e c p s w = (r, w')"
  then show ?thesis
    using Inr wrapped_Inr[of e c p s w img w'] save_Inr[of img "imgs_path c" w w'] by simp
qed

lemma convert_hit:
  "map_of (lru w) (c, p, s) = Some img \<Longrightarrow>
     convert_cmap_to_image e c p s w =
       (Inr img, w\<lparr>lru := ((c, p, s), img) # filter (\<lambda>kv. fst kv \<noteq> (c, p, s)) (lru w)\<rparr>)"
  by (simp add: convert_cmap_to_image_def Let_def)

lemma convert_miss:
  "map_of (lru w) (c, p, s) = None \<Longrightarrow>
     convert_cmap_to_image e c p s w =
       (case convert_cmap_to_image_wrapped e c p s w of
          (Inl x, w') \<Rightarrow> (Inl x, w')
        | (Inr img, w') \<Rightarrow> (Inr img, w'\<lparr>lru := take maxsize (((c, p, s), img) # lru w')\<rparr>))"
  by (simp add: convert_cmap_to_image_def Let_def)

lemma convert_Inl:
  "convert_cmap_to_image e c p s w = (Inl x, w') \<Longrightarrow> w' = w"
  by (auto simp: convert_cmap_to_image_def Let_def
      split: option.splits prod.splits sum.splits dest: wrapped_Inl)

lemma lru_ok_hit:
  assumes "lru_ok w" "map_of (lru w) k = Some img"
  shows "lru_ok (w\<lparr>lru := (k, img) # filter (\<lambda>kv. fst kv \<noteq> k) (lru w)\<rparr>)
         \<and> width img = snd (snd k) \<and> height img = snd (snd k)"
proof -
  have mem: "(k, img) \<in> set (lru w)" using assms(2) by (rule map_of_SomeD)
  then have sz: "width img = snd (snd k) \<and> height img = snd (snd k)"
    using assms(1) by (auto simp: lru_ok_def list_all_iff)
  have "\<not> (\<lambda>kv. fst kv \<noteq> k) (k, img)" by simp
  then have "length (filter (\<lambda>kv. fst kv \<noteq> k) (lru w)) < length (lru w)"
    using mem length_filter_less by fastforce
  moreover have "distinct (map fst (filter (\<lambda>kv. fst kv \<noteq> k) (lru w)))"
    using assms(1) by (simp add: lru_ok_def distinct_map_filter)
  moreover have "k \<notin> fst ` set (filter (\<lambda>kv. fst kv \<noteq> k) (lru w))" by auto
  ultimately show ?thesis
    using assms(1) sz by (auto simp: lru_ok_def list_all_iff)
qed

lemma lru_ok_insert:
  assumes "lru_ok w" "map_of (lru w) k = None" "width img = snd (snd k)" "height img = snd (snd k)"
    "lru w' = lru w"
  shows "lru_ok (w'\<lparr>lru := take maxsize ((k, img) # lru w')\<rparr>)"
proof -
  have nk: "k \<notin> fst ` set (lru w)" using assms(2) by (simp add: map_of_eq_None_iff)
  have all: "list_all (\<lambda>kv. width (snd kv) = snd (snd (fst kv)) \<and> height (snd kv) = snd (snd (fst kv)))
               ((k, img) # lru w)"
    using assms(1,3,4) by (simp add: lru_ok_def)
  have d: "distinct (map fst ((k, img) # lru w))"
    using assms(1) nk by (simp add: lru_ok_def)
  have "list_all (\<lambda>kv. width (snd kv) = snd (snd (fst kv)) \<and> height (snd kv) = snd (snd (fst kv)))
               (take maxsize ((k, img) # lru w))"
    using all unfolding list_all_iff by (meson in_set_takeD)
  moreover have "distinct (map fst (take maxsize ((k, img) # lru w)))"
    using d by (simp only: take_map[symmetric] distinct_take)
  ultimately show ?thesis
    using assms(5) by (simp add: lru_ok_def)
qed

lemma convert_lru_ok:
  assumes "lru_ok w" "convert_cmap_to_image e c p s w = (r, w')"
  shows "lru_ok w'"
proof (cases "map_of (lru w) (c, p, s)")
  case (Some img)
  then show ?thesis
    using assms lru_ok_hit[OF assms(1) Some] by (auto simp: convert_hit)
next
  case None
  obtain r0 w0 where w: "convert_cmap_to_image_wrapped e c p s w = (r0, w0)"
    by (cases "convert_cmap_to_image_wrapped e c p s w")
  have l: "lru w0 = lru w" using wrapped_lru[OF w] by simp
  show ?thesis
  proof (cases r0)
    case (Inl x)
    then have "w' = w" using assms(2) None w wrapped_Inl[of e c p s w x w0]
      by (simp add: convert_miss)
    then show ?thesis using assms(1) by simp
  next
    case (Inr img)
    have sz: "width img = s \<and> height img = s"
      using w Inr wrapped_Inr[of e c p s w img w0] final_image_size by blast
    have "w' = w0\<lparr>lru := take maxsize (((c, p, s), img) # lru w0)\<rparr>"
      using assms(2) None w Inr by (simp add: convert_miss)
    then show ?thesis
      using lru_ok_insert[OF assms(1) None _ _ l, of img] sz by simp
  qed
qed

lemma convert_size:
  assumes "lru_ok w" "convert_cmap_to_image e c p s w = (Inr img, w')"
  shows "width img = s \<and> height img = s"
proof (cases "map_of (lru w) (c, p, s)")
  case (Some img0)
  then show ?thesis
    using assms lru_ok_hit[OF assms(1) Some] by (auto simp: convert_hit)
next
  case None
  then obtain w0 where "convert_cmap_to_image_wrapped e c p s w = (Inr img, w0)"
    using assms(2) by (auto simp: convert_miss split: prod.splits sum.splits)
  then show ?thesis
    using wrapped_Inr[of e c p s w img w0] final_image_size by blast
qed

section \<open>Properties of the rasterizer\<close>

text \<open>
  Claim C9. A call that misses the memo table writes the bitmap it returns to
  \<^verbatim>\<open>./imgs/<codepoint>.png\<close>, whatever that file held before, and it raises whenever
  the directory \<^verbatim>\<open>./imgs\<close> does not exist: with valid arguments and a blank glyph
  the exception is \<^verbatim>\<open>FileNotFoundError\<close>.
\<close>

theorem imgs_write_is_mandatory:
  assumes "map_of (lru w) (c, p, s) = None"
  shows "(convert_cmap_to_image e c p s w = (Inr img, w') \<longrightarrow>
            files w' (imgs_path c) = Some (PNG img) \<and> saved w' = imgs_path c # saved w)
         \<and> (''./imgs'' \<notin> dirs w \<longrightarrow> (\<exists>x. convert_cmap_to_image e c p s w = (Inl x, w)))
         \<and> (''./imgs'' \<notin> dirs w \<and> ''./imgs'' \<notin> dom (files w) \<and> path_exists w p \<and> chr_ok c
              \<and> 0 \<le> s \<and> truetype e p s \<and> text_bbox e c p s = Inr None \<longrightarrow>
              convert_cmap_to_image e c p s w = (Inl FileNotFoundError, w))"
proof -
  have 1: "files w' (imgs_path c) = Some (PNG img) \<and> saved w' = imgs_path c # saved w"
    if r: "convert_cmap_to_image e c p s w = (Inr img, w')"
  proof -
    obtain w0 where w0: "convert_cmap_to_image_wrapped e c p s w = (Inr img, w0)"
      and w': "w' = w0\<lparr>lru := take maxsize (((c, p, s), img) # lru w0)\<rparr>"
      using assms r by (auto simp: convert_miss split: prod.splits sum.splits)
    have "w0 = w\<lparr>files := (files w)(imgs_path c \<mapsto> PNG img), saved := imgs_path c # saved w\<rparr>"
      using wrapped_Inr[OF w0] save_Inr[of img "imgs_path c" w w0] by simp
    then show ?thesis using w' by simp
  qed
  have 2: "\<exists>x. convert_cmap_to_image e c p s w = (Inl x, w)" if nd: "''./imgs'' \<notin> dirs w"
  proof -
    obtain x where "convert_cmap_to_image_wrapped e c p s w = (Inl x, w)"
      using nd wrapped_no_imgs_dir by blast
    then show ?thesis using assms by (simp add: convert_miss)
  qed
  have 3: "convert_cmap_to_image e c p s w = (Inl FileNotFoundError, w)"
    if a: "''./imgs'' \<notin> dirs w \<and> ''./imgs'' \<notin> dom (files w) \<and> path_exists w p \<and> chr_ok c
              \<and> 0 \<le> s \<and> truetype e p s \<and> text_bbox e c p s = Inr None"
  proof -
    have "save \<lparr>width = s, height = s, pixels = Fill 255\<rparr> (imgs_path c) w
            = Inl FileNotFoundError"
      using a by (simp add: save_def dirname_imgs_path dir_exists_def)
    then have "convert_cmap_to_image_wrapped e c p s w = (Inl FileNotFoundError, w)"
      using a by (simp add: wrapped_blank)
    then show ?thesis using assms by (simp add: convert_miss)
  qed
  show ?thesis using 1 2 3 by blast
qed

theorem imgs_write_is_mandatory_witness:
  "convert_cmap_to_image (stub_env [] reads_seven) 32 ''digits.ttf'' 16 (disk {})
     = (Inl FileNotFoundError, disk {})
   \<and> files (snd (convert_cmap_to_image (stub_env [] reads_seven) 32 ''digits.ttf'' 16
        ((disk {''./imgs''})\<lparr>files := (files (disk {''./imgs''}))(''./imgs/32.png'' \<mapsto> Opaque)\<rparr>)))
        ''./imgs/32.png''
     = Some (PNG \<lparr>width = 16, height = 16, pixels = Fill 255\<rparr>)"
proof -
  let ?e = "stub_env [] reads_seven"
  let ?w = "(disk {''./imgs''})\<lparr>files := (files (disk {''./imgs''}))(''./imgs/32.png'' \<mapsto> Opaque)\<rparr>"
  let ?img = "\<lparr>width = 16, height = 16, pixels = Fill 255\<rparr>"
  let ?X = "convert_cmap_to_image ?e 32 ''digits.ttf'' 16 ?w"
  have p: "imgs_path 32 = ''./imgs/32.png''"
    by (simp add: imgs_path_def str_of_int_def str_of_nat.simps)
  have m1: "map_of (lru (disk {})) (32, ''digits.ttf'', 16) = None" by (simp add: disk_def)
  have m2: "map_of (lru ?w) (32, ''digits.ttf'', 16) = None" by (simp add: disk_def)
  have f: "fst ?X = Inr ?img"
    by (simp add: convert_cmap_to_image_def convert_cmap_to_image_wrapped_def Let_def disk_def
        stub_env_def path_exists_def Image_new_def chr_ok_def final_image_def save_def p
        dirname_def slash_def dir_exists_def)
  have r: "?X = (Inr ?img, snd ?X)"
    using f by (simp add: prod_eq_iff)
  have a: "files (snd ?X) (imgs_path 32) = Some (PNG ?img)"
    using imgs_write_is_mandatory [OF m2, of ?e ?img "snd ?X"] r by blast
  have h: "''./imgs'' \<notin> dirs (disk {}) \<and> ''./imgs'' \<notin> dom (files (disk {}))
      \<and> path_exists (disk {}) ''digits.ttf'' \<and> chr_ok 32 \<and> (0::int) \<le> 16
      \<and> truetype ?e ''digits.ttf'' 16 \<and> text_bbox ?e 32 ''digits.ttf'' 16 = Inr None"
    by (simp add: disk_def stub_env_def path_exists_def chr_ok_def)
  have b: "convert_cmap_to_image ?e 32 ''digits.ttf'' 16 (disk {}) = (Inl FileNotFoundError, disk {})"
    using imgs_write_is_mandatory [OF m1, of ?e undefined undefined] h by blast
  show ?thesis using a b by (simp add: p)
qed


text \<open>
  Claim C4. A bitmap the rasterizer returns is exactly \<open>img_size\<close> by \<open>img_size\<close>:
  from the cropped and resampled branch, from the blank branch, from the body and
  from the memo table, which holds only bitmaps the body returned for the same key.
\<close>

theorem output_dimensions:
  shows "(final_image e c p s bbox = Inr img \<longrightarrow> width img = s \<and> height img = s)
       \<and> (convert_cmap_to_image_wrapped e c p s w = (Inr img, w') \<longrightarrow> width img = s \<and> height img = s)
       \<and> (lru_ok w \<and> convert_cmap_to_image e c p s w = (Inr img, w') \<longrightarrow>
            width img = s \<and> height img = s \<and> lru_ok w')"
  using final_image_size[of e c p s bbox img] wrapped_Inr[of e c p s w img w']
    final_image_size convert_size[of w e c p s img w'] convert_lru_ok[of w e c p s "Inr img" w']
  by blast

theorem output_dimensions_witness:
  "fst (convert_cmap_to_image (stub_env [] reads_seven) 57345 ''digits.ttf'' 16 (disk {''./imgs''}))
     = Inr \<lparr>width = 16, height = 16, pixels = Raster [57345]\<rparr>
   \<and> lru_ok (snd (convert_cmap_to_image (stub_env [] reads_seven) 57345 ''digits.ttf'' 16
        (disk {''./imgs''})))"
proof -
  let ?e = "stub_env [] reads_seven"
  let ?w = "disk {''./imgs''}"
  let ?img = "\<lparr>width = 16, height = 16, pixels = Raster [57345]\<rparr>"
  let ?X = "convert_cmap_to_image ?e 57345 ''digits.ttf'' 16 ?w"
  have ok: "lru_ok ?w" by (simp add: lru_ok_def disk_def)
  have f: "fst ?X = Inr ?img"
    by (simp add: convert_cmap_to_image_def convert_cmap_to_image_wrapped_def Let_def disk_def
        stub_env_def path_exists_def Image_new_def chr_ok_def final_image_def save_def
        imgs_path_def str_of_int_def str_of_nat.simps dirname_def slash_def dir_exists_def
        crop_box_def)
  have r: "?X = (Inr ?img, snd ?X)"
    using f by (simp add: prod_eq_iff)
  have "width ?img = 16 \<and> height ?img = 16 \<and> lru_ok (snd ?X)"
    using output_dimensions [of ?e 57345 "''digits.ttf''" 16 undefined ?img ?w "snd ?X"] ok r
    by blast
  then show ?thesis using f by simp
qed

section \<open>The mapping assembler: frames of one entry\<close>

lemma convert_files:
  assumes "convert_cmap_to_image e c p s w = (r, w')"
  shows "dirs w' = dirs w \<and> log w' = log w
         \<and> (\<forall>q. q \<noteq> imgs_path c \<longrightarrow> files w' q = files w q)
         \<and> (saved w' = saved w \<or> saved w' = imgs_path c # saved w)"
proof (cases "map_of (lru w) (c, p, s)")
  case (Some img)
  then show ?thesis using assms by (auto simp: convert_hit)
next
  case None
  obtain r0 w0 where w0: "convert_cmap_to_image_wrapped e c p s w = (r0, w0)"
    by (cases "convert_cmap_to_image_wrapped e c p s w")
  show ?thesis
  proof (cases r0)
    case (Inl x)
    then have "w' = w" using assms None w0 wrapped_Inl[of e c p s w x w0]
      by (simp add: convert_miss)
    then show ?thesis by simp
  next
    case (Inr img)
    have "w0 = w\<lparr>files := (files w)(imgs_path c \<mapsto> PNG img), saved := imgs_path c # saved w\<rparr>"
      using w0 Inr wrapped_Inr[of e c p s w img w0] save_Inr[of img "imgs_path c" w w0] by simp
    moreover have "w' = w0\<lparr>lru := take maxsize (((c, p, s), img) # lru w0)\<rparr>"
      using assms None w0 Inr by (simp add: convert_miss)
    ultimately show ?thesis by simp
  qed
qed

lemma cache_write_frame:
  assumes "cache_write cache_dir c g img w = Inr w'"
  shows "dirs w' = dirs w \<and> log w' = log w \<and> lru w' = lru w
         \<and> (\<forall>q x. files w q = Some x \<longrightarrow> files w' q = Some x)
         \<and> (saved w' = saved w
             \<or> (\<exists>d. cache_dir = Some d \<and> d \<noteq> [] \<and> \<not> path_exists w (cache_path d c g)
                  \<and> saved w' = cache_path d c g # saved w
                  \<and> files w' = (files w)(cache_path d c g \<mapsto> PNG img)))"
proof (cases cache_dir)
  case None
  then show ?thesis using assms by (simp add: cache_write_def)
next
  case (Some d)
  show ?thesis
  proof (cases "d \<noteq> [] \<and> chr_ok c \<and> \<not> path_exists w (cache_path d c g)")
    case True
    then have s: "save img (cache_path d c g) w = Inr w'"
      using assms Some by (simp add: cache_write_def)
    have n: "files w (cache_path d c g) = None"
      using True by (auto simp: path_exists_def)
    show ?thesis
      using save_Inr[OF s] True Some n by auto
  next
    case False
    then have "w' = w" using assms Some by (auto simp: cache_write_def split: if_splits)
    then show ?thesis by simp
  qed
qed

lemma process_entry_frame:
  assumes "process_entry e fp sz cache_dir c g w = (r, w')"
  shows "dirs w' = dirs w \<and> log w' = log w
         \<and> (\<forall>q x. files w q = Some x \<and> CHR ''_'' \<in> set q \<longrightarrow> files w' q = Some x)"
proof -
  obtain r1 w1 where c1: "convert_cmap_to_image e c fp sz w = (r1, w1)"
    by (cases "convert_cmap_to_image e c fp sz w")
  have f1: "dirs w1 = dirs w \<and> log w1 = log w
      \<and> (\<forall>q x. files w q = Some x \<and> CHR ''_'' \<in> set q \<longrightarrow> files w1 q = Some x)"
    using convert_files[OF c1] imgs_path_no_underscore[of c] by metis
  show ?thesis
  proof (cases r1)
    case (Inl x)
    then have "w' = w1" using assms c1 by (simp add: process_entry_def)
    then show ?thesis using f1 by simp
  next
    case (Inr img)
    show ?thesis
    proof (cases "cache_write cache_dir c g img w1")
      case (Inl x)
      then have "w' = w1" using assms c1 Inr by (simp add: process_entry_def)
      then show ?thesis using f1 by simp
    next
      case r2: (Inr w2)
      then have "w' = w2"
        using assms c1 Inr by (auto simp: process_entry_def split: sum.splits)
      then show ?thesis using f1 cache_write_frame[OF r2] by simp
    qed
  qed
qed

lemma entry_step_eq:
  "entry_step e fp sz sp cache_dir tot idx c g (fm, w) =
     (let pe = process_entry e fp sz cache_dir c g (progress sp tot idx w)
      in (fm(g \<mapsto> entry_text (fst pe)),
          case fst pe of
            Inl x \<Rightarrow> (snd pe)\<lparr>log := WARNING c g x # log (snd pe)\<rparr>
          | Inr text \<Rightarrow> snd pe))"
  by (simp add: entry_step_def entry_text_def Let_def split: prod.splits sum.splits)

lemma entry_step_frame:
  assumes "entry_step e fp sz sp cache_dir tot idx c g (fm, w) = (fm', w')"
  shows "dirs w' = dirs w
         \<and> (\<forall>q x. files w q = Some x \<and> CHR ''_'' \<in> set q \<longrightarrow> files w' q = Some x)"
proof -
  let ?w0 = "progress sp tot idx w"
  obtain r w1 where pe: "process_entry e fp sz cache_dir c g ?w0 = (r, w1)"
    by (cases "process_entry e fp sz cache_dir c g ?w0")
  have w0: "dirs ?w0 = dirs w \<and> files ?w0 = files w" by (simp add: progress_def)
  have "dirs w' = dirs w1 \<and> files w' = files w1"
    using assms pe by (auto simp: entry_step_eq Let_def split: sum.splits)
  then show ?thesis using process_entry_frame[OF pe] w0 by simp
qed

lemma extract_loop_frame:
  "extract_loop e fp sz sp cache_dir tot idx items (fm, w) = (fm', w') \<Longrightarrow>
     dirs w' = dirs w
     \<and> (\<forall>q x. files w q = Some x \<and> CHR ''_'' \<in> set q \<longrightarrow> files w' q = Some x)"
proof (induction items arbitrary: idx fm w)
  case Nil
  then show ?case by simp
next
  case (Cons it items)
  obtain c g where it: "it = (c, g)" by (cases it)
  obtain fm1 w1 where st: "entry_step e fp sz sp cache_dir tot idx c g (fm, w) = (fm1, w1)"
    by (cases "entry_step e fp sz sp cache_dir tot idx c g (fm, w)")
  have "extract_loop e fp sz sp cache_dir tot (Suc idx) items (fm1, w1) = (fm', w')"
    using Cons.prems it st by simp
  then show ?case using Cons.IH entry_step_frame[OF st] by simp
qed

lemma ensure_cache_dir_frame:
  "ensure_cache_dir cache_dir w = Inr w1 \<Longrightarrow>
     files w1 = files w \<and> lru w1 = lru w \<and> saved w1 = saved w \<and> log w1 = log w"
  by (auto simp: ensure_cache_dir_def makedirs_def split: option.splits if_splits)

lemma extract_Inr:
  assumes "extract_text_from_font e fp sz sp uc cache_dir w = (Inr fm, w')"
  shows "\<exists>w1 items w2. path_exists w fp \<and> ensure_cache_dir cache_dir w = Inr w1
           \<and> TTFont_cmap e fp = Inr (Some items) \<and> DdddOcr e
           \<and> extract_loop e fp sz sp cache_dir (length items) 0 items (Map.empty, w1) = (fm, w2)
           \<and> w' = (if sp then w2\<lparr>log := DONE (length items) # log w2\<rparr> else w2)"
  using assms
  by (auto simp: extract_text_from_font_def split: if_splits sum.splits option.splits prod.splits)

lemma extract_total:
  assumes "path_exists w fp" "ensure_cache_dir cache_dir w = Inr w1"
    "TTFont_cmap e fp = Inr (Some items)" "DdddOcr e"
  shows "extract_text_from_font e fp sz sp uc cache_dir w =
           (Inr (fst (extract_loop e fp sz sp cache_dir (length items) 0 items (Map.empty, w1))),
            let w2 = snd (extract_loop e fp sz sp cache_dir (length items) 0 items (Map.empty, w1))
            in if sp then w2\<lparr>log := DONE (length items) # log w2\<rparr> else w2)"
  using assms by (simp add: extract_text_from_font_def Let_def split: prod.splits)

lemma extract_Inl:
  assumes "extract_text_from_font e fp sz sp uc cache_dir w = (Inl x, w')"
  shows "files w' = files w \<and> lru w' = lru w \<and> saved w' = saved w \<and> log w' = log w
         \<and> ((\<not> path_exists w fp \<and> x = FileNotFoundError \<and> w' = w)
            \<or> (path_exists w fp \<and> ensure_cache_dir cache_dir w = Inl x \<and> w' = w)
            \<or> (path_exists w fp \<and> ensure_cache_dir cache_dir w = Inr w'
                \<and> ((\<exists>y. TTFont_cmap e fp = Inl y) \<and> x = ValueError
                   \<or> (\<exists>cm. TTFont_cmap e fp = Inr cm) \<and> \<not> DdddOcr e \<and> x = LibraryError
                   \<or> TTFont_cmap e fp = Inr None \<and> DdddOcr e \<and> x = TypeError)))"
  using assms
  by (auto simp: extract_text_from_font_def
      split: if_splits sum.splits option.splits prod.splits dest: ensure_cache_dir_frame)

section \<open>The mapping assembler: the loop\<close>





section \<open>Properties of the mapping assembler\<close>

lemmas run_defs =
  extract_text_from_font_def ensure_cache_dir_def makedirs_def ancestors_def entry_step_def
  process_entry_def progress_def cache_write_def cache_path_def path_join_def
  convert_cmap_to_image_def convert_cmap_to_image_wrapped_def maxsize_def final_image_def
  crop_box_def Image_new_def chr_ok_def save_def dirname_def dir_exists_def path_exists_def
  imgs_path_def str_of_int_def str_of_nat.simps slash_def stub_env_def reads_seven_def
  always_raises_def disk_def entry_text_def Let_def



text \<open>
  Claim C2. A missing font path raises \<^verbatim>\<open>FileNotFoundError\<close> and an unparsable font
  \<^verbatim>\<open>ValueError\<close>. Whenever the call raises, no entry has been processed: no file has
  been written, nothing was rendered into the memo table and nothing was logged; the
  cause is the missing font, a failure to create the cache directory, the parse
  error, the OCR engine that could not be constructed, or a font without a character
  map. An exception from processing an entry is caught: the entry gets the empty
  string, a warning is logged, and the call returns a mapping.
\<close>

theorem fatal_soft_boundary:
  shows "(\<not> path_exists w fp \<longrightarrow>
            extract_text_from_font e fp sz sp uc cache_dir w = (Inl FileNotFoundError, w))
       \<and> (path_exists w fp \<and> ensure_cache_dir cache_dir w = Inr w1 \<and> TTFont_cmap e fp = Inl y \<longrightarrow>
            extract_text_from_font e fp sz sp uc cache_dir w = (Inl ValueError, w1))
       \<and> (extract_text_from_font e fp sz sp uc cache_dir w = (Inl x, w') \<longrightarrow>
            files w' = files w \<and> lru w' = lru w \<and> saved w' = saved w \<and> log w' = log w
            \<and> ((\<not> path_exists w fp \<and> x = FileNotFoundError \<and> w' = w)
               \<or> (path_exists w fp \<and> ensure_cache_dir cache_dir w = Inl x \<and> w' = w)
               \<or> (path_exists w fp \<and> ensure_cache_dir cache_dir w = Inr w'
                   \<and> ((\<exists>y. TTFont_cmap e fp = Inl y) \<and> x = ValueError
                      \<or> (\<exists>cm. TTFont_cmap e fp = Inr cm) \<and> \<not> DdddOcr e \<and> x = LibraryError
                      \<or> TTFont_cmap e fp = Inr None \<and> DdddOcr e \<and> x = TypeError))))
       \<and> (path_exists w fp \<and> ensure_cache_dir cache_dir w = Inr w1
            \<and> TTFont_cmap e fp = Inr (Some items) \<and> DdddOcr e \<longrightarrow>
            (\<exists>fm w'. extract_text_from_font e fp sz sp uc cache_dir w = (Inr fm, w')))
       \<and> (process_entry e fp sz cache_dir c g (progress sp tot idx w) = (Inl x, w2) \<longrightarrow>
            entry_step e fp sz sp cache_dir tot idx c g (fm, w)
              = (fm(g \<mapsto> []), w2\<lparr>log := WARNING c g x # log w2\<rparr>))"
proof -
  have 1: "\<not> path_exists w fp \<longrightarrow>
            extract_text_from_font e fp sz sp uc cache_dir w = (Inl FileNotFoundError, w)"
    by (simp add: extract_text_from_font_def)
  have 2: "path_exists w fp \<and> ensure_cache_dir cache_dir w = Inr w1 \<and> TTFont_cmap e fp = Inl y \<longrightarrow>
            extract_text_from_font e fp sz sp uc cache_dir w = (Inl ValueError, w1)"
    by (simp add: extract_text_from_font_def)
  have 4: "path_exists w fp \<and> ensure_cache_dir cache_dir w = Inr w1
            \<and> TTFont_cmap e fp = Inr (Some items) \<and> DdddOcr e \<longrightarrow>
            (\<exists>fm w'. extract_text_from_font e fp sz sp uc cache_dir w = (Inr fm, w'))"
    using extract_total[of w fp cache_dir w1 e items sz sp uc] by simp
  have 5: "process_entry e fp sz cache_dir c g (progress sp tot idx w) = (Inl x, w2) \<longrightarrow>
            entry_step e fp sz sp cache_dir tot idx c g (fm, w)
              = (fm(g \<mapsto> []), w2\<lparr>log := WARNING c g x # log w2\<rparr>)"
    by (simp add: entry_step_def)
  show ?thesis
    using 1 2 4 5 extract_Inl[of e fp sz sp uc cache_dir w x w'] by blast
qed

theorem fatal_soft_boundary_witness:
  "extract_text_from_font (stub_env [(- 1, ''bad'')] reads_seven) ''missing.ttf'' 16 False True None
     (disk {''./imgs''}) = (Inl FileNotFoundError, disk {''./imgs''})
   \<and> (\<exists>fm w'. extract_text_from_font (stub_env [(- 1, ''bad'')] reads_seven) ''digits.ttf'' 16
         False True None (disk {''./imgs''}) = (Inr fm, w'))
   \<and> entry_step (stub_env [(- 1, ''bad'')] reads_seven) ''digits.ttf'' 16 False None 1 0 (- 1) ''bad''
        (Map.empty, disk {''./imgs''})
      = ([''bad'' \<mapsto> []], (disk {''./imgs''})\<lparr>log := [WARNING (- 1) ''bad'' ValueError]\<rparr>)"
proof -
  let ?e = "stub_env [(- 1, ''bad'')] reads_seven"
  let ?w = "disk {''./imgs''}"
  have a: "\<not> path_exists ?w ''missing.ttf''"
    by (simp add: path_exists_def disk_def)
  have b: "path_exists ?w ''digits.ttf'' \<and> ensure_cache_dir None ?w = Inr ?w
      \<and> TTFont_cmap ?e ''digits.ttf'' = Inr (Some [(- 1, ''bad'')]) \<and> DdddOcr ?e"
    by (simp add: path_exists_def disk_def ensure_cache_dir_def stub_env_def)
  have c: "process_entry ?e ''digits.ttf'' 16 None (- 1) ''bad'' (progress False 1 0 ?w)
      = (Inl ValueError, ?w)"
    by (simp add: run_defs)
  have l: "log ?w = []" by (simp add: disk_def)
  show ?thesis
    using fatal_soft_boundary [of ?w "''missing.ttf''" ?e 16 False True None ?w undefined
        undefined undefined undefined undefined undefined undefined undefined undefined undefined] a
      fatal_soft_boundary [of ?w "''digits.ttf''" ?e 16 False True None ?w undefined
        undefined undefined "[(- 1, ''bad'')]" "- 1" "''bad''" 1 0 ?w Map.empty] b
      fatal_soft_boundary [of ?w "''digits.ttf''" ?e 16 False True None ?w undefined
        ValueError undefined undefined "- 1" "''bad''" 1 0 ?w Map.empty] c l
    by simp
qed

text \<open>
  The call also raises for an existing, parsable font: the cache directory
  \<^verbatim>\<open>digits.ttf/cache\<close> lies under a regular file and cannot be created, and a font
  without a Unicode character map makes \<^verbatim>\<open>len(cmap)\<close> raise \<^verbatim>\<open>TypeError\<close>.
\<close>

theorem raises_beyond_missing_and_unparsable:
  "path_exists (disk {''./imgs''}) ''digits.ttf''
   \<and> TTFont_cmap (stub_env [(57345, ''uniE001'')] reads_seven) ''digits.ttf''
       = Inr (Some [(57345, ''uniE001'')])
   \<and> extract_text_from_font (stub_env [(57345, ''uniE001'')] reads_seven) ''digits.ttf'' 16 False
       True (Some ''digits.ttf/cache'') (disk {''./imgs''})
       = (Inl NotADirectoryError, disk {''./imgs''})
   \<and> extract_text_from_font
       ((stub_env [] reads_seven)\<lparr>TTFont_cmap := (\<lambda>p. Inr None)\<rparr>) ''digits.ttf'' 16 False
       True None (disk {''./imgs''})
       = (Inl TypeError, disk {''./imgs''})"
  by (simp add: run_defs upt_rec)

text \<open>
  Claim C8. A file that exists under the name of a pair when the extraction starts
  still holds its content when the extraction ends, however the call ends. The write
  into the cache directory happens exactly when no file or directory of that name
  exists: then the bitmap is stored under that name, and otherwise nothing changes.
\<close>

theorem cache_is_write_once:
  shows "(extract_text_from_font e fp sz sp uc (Some d) w = (r, w')
            \<and> files w (cache_path d c g) = Some x \<longrightarrow>
            files w' (cache_path d c g) = Some x)
       \<and> (cache_write (Some d) c g img w = Inr w1 \<and> d \<noteq> [] \<longrightarrow>
            (if path_exists w (cache_path d c g) then w1 = w
             else w1 = w\<lparr>files := (files w)(cache_path d c g \<mapsto> PNG img),
                         saved := cache_path d c g # saved w\<rparr>))"
proof -
  have 1: "files w' (cache_path d c g) = Some x"
    if a: "extract_text_from_font e fp sz sp uc (Some d) w = (r, w')
            \<and> files w (cache_path d c g) = Some x"
  proof (cases r)
    case (Inl y)
    then show ?thesis using a extract_Inl[of e fp sz sp uc "Some d" w y w'] by simp
  next
    case (Inr fm)
    then obtain w1 items w2 where b: "ensure_cache_dir (Some d) w = Inr w1"
      "extract_loop e fp sz sp (Some d) (length items) 0 items (Map.empty, w1) = (fm, w2)"
      "w' = (if sp then w2\<lparr>log := DONE (length items) # log w2\<rparr> else w2)"
      using a extract_Inr[of e fp sz sp uc "Some d" w fm w'] by blast
    have "files w1 (cache_path d c g) = Some x"
      using a ensure_cache_dir_frame[OF b(1)] by simp
    then have "files w2 (cache_path d c g) = Some x"
      using extract_loop_frame[OF b(2)] cache_path_underscore[of d c g] by blast
    then show ?thesis using b(3) by simp
  qed
  have 2: "if path_exists w (cache_path d c g) then w1 = w
             else w1 = w\<lparr>files := (files w)(cache_path d c g \<mapsto> PNG img),
                         saved := cache_path d c g # saved w\<rparr>"
    if b: "cache_write (Some d) c g img w = Inr w1 \<and> d \<noteq> []"
  proof (cases "path_exists w (cache_path d c g)")
    case True
    then show ?thesis using b by (auto simp: cache_write_def split: if_splits)
  next
    case False
    then have "save img (cache_path d c g) w = Inr w1"
      using b by (auto simp: cache_write_def split: if_splits)
    then show ?thesis using False save_Inr by simp
  qed
  show ?thesis using 1 2 by blast
qed

theorem cache_is_write_once_witness:
  "files (snd (extract_text_from_font (stub_env [(57345, ''uniE001'')] reads_seven) ''digits.ttf'' 16
       False True (Some ''cache'')
       ((disk {''./imgs'', ''cache''})\<lparr>files :=
           (files (disk {''./imgs'', ''cache''}))(''cache/57345_uniE001.png'' \<mapsto> Opaque)\<rparr>)))
     ''cache/57345_uniE001.png'' = Some Opaque
   \<and> files (snd (extract_text_from_font (stub_env [(57345, ''uniE001'')] reads_seven) ''digits.ttf'' 16
       False True (Some ''cache'') (disk {''./imgs'', ''cache''})))
     ''cache/57345_uniE001.png'' = Some (PNG \<lparr>width = 16, height = 16, pixels = Raster [57345]\<rparr>)"
proof -
  let ?e = "stub_env [(57345, ''uniE001'')] reads_seven"
  let ?w = "(disk {''./imgs'', ''cache''})\<lparr>files :=
           (files (disk {''./imgs'', ''cache''}))(''cache/57345_uniE001.png'' \<mapsto> Opaque)\<rparr>"
  let ?X = "extract_text_from_font ?e ''digits.ttf'' 16 False True (Some ''cache'') ?w"
  have p: "cache_path ''cache'' 57345 ''uniE001'' = ''cache/57345_uniE001.png''"
    by (simp add: cache_path_def path_join_def str_of_int_def str_of_nat.simps slash_def)
  have h: "files ?w (cache_path ''cache'' 57345 ''uniE001'') = Some Opaque"
    by (simp add: p)
  have a: "files (snd ?X) (cache_path ''cache'' 57345 ''uniE001'') = Some Opaque"
    using cache_is_write_once [of ?e "''digits.ttf''" 16 False True "''cache''" ?w "fst ?X" "snd ?X"
        57345 "''uniE001''" Opaque] h
    by simp
  have b: "files (snd (extract_text_from_font ?e ''digits.ttf'' 16
       False True (Some ''cache'') (disk {''./imgs'', ''cache''})))
     ''cache/57345_uniE001.png'' = Some (PNG \<lparr>width = 16, height = 16, pixels = Raster [57345]\<rparr>)"
    by (simp add: run_defs)
  show ?thesis using a b by (simp add: p)
qed

section \<open>Properties of the memo table over a run of calls\<close>












end
